theory Spec2Isabelle
  imports Complex_Main
begin

section \<open>Data model\<close>

text \<open>
  The program is \<^verbatim>\<open>app.py\<close>: a FastAPI application with one data route. Its function
  \<^verbatim>\<open>get_cleaned_data\<close> downloads a table of closing prices (or generates a synthetic one
  when the download raises), slices it by date, drops one column and drops incomplete
  rows; \<^verbatim>\<open>api_get_401k_data\<close> serialises the result into a JSON envelope.

  A calendar day is its proleptic Gregorian ordinal (the number Python's
  \<^verbatim>\<open>date.toordinal\<close> returns), so that the order of dates is the order of numbers.
  A cell of a table is a float: \<open>Some x\<close> is the number \<open>x\<close>, \<open>None\<close> is NaN, the
  missing-value marker of pandas. Numbers are real numbers; rounding is not modelled.
\<close>

type_synonym date = nat

type_synonym cell = "real option"

text \<open>
  A DataFrame with a date index: the column labels in order, and the rows in order, each
  with its index label and its cells (one per column).
\<close>

record dataframe =
  columns :: "string list"
  rows :: "(date \<times> cell list) list"

text \<open>
  The exceptions that occur, all of them subclasses of Python's \<^verbatim>\<open>Exception\<close>. Each carries
  its message argument. \<^verbatim>\<open>str(e)\<close> is the message, except for a KeyError, where it is the
  \<^verbatim>\<open>repr\<close> of the message: the message in quotes (double quotes when it contains a single
  quote and no double quote), with quotes and backslashes escaped. Escapes of
  non-printable characters are not modelled; no message here has one.
\<close>

datatype exn = KeyError string | ValueError string | Exception string

definition repr_str :: "string \<Rightarrow> string" where
  "repr_str s =
     (if CHR 0x27 \<in> set s \<and> CHR 0x22 \<notin> set s then [CHR 0x22] @ s @ [CHR 0x22]
      else [CHR 0x27]
           @ concat (map (\<lambda>c. if c = CHR 0x27 \<or> c = CHR 0x5C then [CHR 0x5C, c] else [c]) s)
           @ [CHR 0x27])"

fun str :: "exn \<Rightarrow> string" where
  "str (KeyError m) = repr_str m"
| "str (ValueError m) = m"
| "str (Exception m) = m"

text \<open>
  Python values that make up the content of a response: strings, integers, floats (with
  NaN), lists and dictionaries. A dictionary is the list of its items in insertion order.
\<close>

datatype pyval =
    PStr string
  | PInt int
  | PFloat cell
  | PList "pyval list"
  | PDict "(string \<times> pyval) list"

record response =
  status_code :: nat
  content :: pyval

text \<open>
  The process state that the two functions read and write: the state of NumPy's global
  random generator, and the lines printed so far. The generator itself is a parameter:
  \<open>seed\<close> is \<^verbatim>\<open>np.random.seed\<close>, \<open>gauss\<close> draws one standard normal deviate and
  advances the state.
\<close>

record 'g np_random =
  seed :: "nat \<Rightarrow> 'g"
  gauss :: "'g \<Rightarrow> real \<times> 'g"

record 'g world =
  rng_state :: 'g
  stdout :: "string list"

section \<open>Configuration (module level)\<close>

definition investment_options :: "string list" where
  "investment_options =
    [''DODGX'', ''FLCSX'', ''FXAIX'', ''VFIAX'', ''VFINX'', ''TRBCX'', ''PRGFX'',
     ''VTTVX'', ''VTTSX'', ''VTIVX'', ''VFFVX'', ''VSVNX'', ''TRRKX'', ''FFTHX'',
     ''FTBFX'', ''VBTLX'', ''VBMFX'', ''VIPIX'', ''MWTSX'', ''PTTRX'',
     ''PRWCX'', ''VWELX'', ''FCNTX'', ''DODFX'',
     ''VGTSX'', ''VTIAX'', ''FSPSX'', ''VFWAX'', ''TRIGX'',
     ''VFSVX'', ''VFSAX'', ''FISMX'', ''VINEX'',
     ''VEMAX'', ''FPADX'']"

definition market_indexes :: "string list" where
  "market_indexes = [''^VIX'', ''^MOVE'', ''^GSPC'', ''^TNX'', ''^IRX'', ''TIP'']"

section \<open>Dates\<close>

text \<open>
  The ordinal of a calendar day, as Python's \<^verbatim>\<open>datetime\<close> computes it
  (\<^verbatim>\<open>_ymd2ord\<close>): day 1 is 0001-01-01, a Monday.
\<close>

definition is_leap :: "nat \<Rightarrow> bool" where
  "is_leap y \<longleftrightarrow> y mod 4 = 0 \<and> (y mod 100 \<noteq> 0 \<or> y mod 400 = 0)"

definition days_before_year :: "nat \<Rightarrow> nat" where
  "days_before_year year = (let y = year - 1 in y * 365 + y div 4 - y div 100 + y div 400)"

definition days_in_month :: "nat list" where
  "days_in_month = [31, 28, 31, 30, 31, 30, 31, 31, 30, 31, 30, 31]"

definition days_before_month :: "nat \<Rightarrow> nat \<Rightarrow> nat" where
  "days_before_month year month =
     sum_list (take (month - 1) days_in_month) + (if month > 2 \<and> is_leap year then 1 else 0)"

definition ymd2ord :: "nat \<Rightarrow> nat \<Rightarrow> nat \<Rightarrow> date" where
  "ymd2ord year month day = days_before_year year + days_before_month year month + day"

text \<open>Monday is 0, Sunday is 6.\<close>

definition weekday :: "date \<Rightarrow> nat" where
  "weekday d = (d + 6) mod 7"

text \<open>
  \<^verbatim>\<open>pd.date_range(start, end, freq="B")\<close>: the business days (Monday to Friday) from
  \<open>start\<close> to \<open>end\<close>, both included, ascending.
\<close>

definition date_range_B :: "date \<Rightarrow> date \<Rightarrow> date list" where
  "date_range_B start end = filter (\<lambda>d. weekday d < 5) [start ..< Suc end]"

section \<open>Dictionaries\<close>

text \<open>
  \<^verbatim>\<open>d[k] = v\<close>: an existing key keeps its place and takes the new value, a new key goes
  to the end. \<open>dict\<close> builds a dictionary from a sequence of items, as \<^verbatim>\<open>dict(zip(..))\<close>
  and a dictionary comprehension do.
\<close>

fun dict_setitem :: "'k \<Rightarrow> 'v \<Rightarrow> ('k \<times> 'v) list \<Rightarrow> ('k \<times> 'v) list" where
  "dict_setitem k v [] = [(k, v)]"
| "dict_setitem k v ((k', v') # d) =
     (if k' = k then (k, v) # d else (k', v') # dict_setitem k v d)"

definition dict :: "('k \<times> 'v) list \<Rightarrow> ('k \<times> 'v) list" where
  "dict kvs = fold (\<lambda>(k, v) d. dict_setitem k v d) kvs []"

section \<open>The synthetic table (fallback branch)\<close>

text \<open>
  \<open>n\<close> successive draws of a standard normal deviate from the generator, with the state
  they leave. \<^verbatim>\<open>np.random.normal(loc, scale, n)\<close> returns \<open>loc + scale * z\<close> for each draw
  \<open>z\<close>.
\<close>

fun standard_normal :: "'g np_random \<Rightarrow> nat \<Rightarrow> 'g \<Rightarrow> real list \<times> 'g" where
  "standard_normal R 0 g = ([], g)"
| "standard_normal R (Suc n) g =
     (let (z, g1) = gauss R g;
          (zs, g2) = standard_normal R n g1
      in (z # zs, g2))"

definition normal :: "'g np_random \<Rightarrow> real \<Rightarrow> real \<Rightarrow> nat \<Rightarrow> 'g \<Rightarrow> real list \<times> 'g" where
  "normal R loc scale n g =
     (let (zs, g1) = standard_normal R n g in (map (\<lambda>z. loc + scale * z) zs, g1))"

text \<open>\<^verbatim>\<open>np.cumsum\<close>: the running sums.\<close>

fun cumsum_from :: "real \<Rightarrow> real list \<Rightarrow> real list" where
  "cumsum_from acc [] = []"
| "cumsum_from acc (x # xs) = (acc + x) # cumsum_from (acc + x) xs"

definition cumsum :: "real list \<Rightarrow> real list" where
  "cumsum xs = cumsum_from 0 xs"

text \<open>
  The dictionary comprehension of the fallback branch: for every ticker in turn, draw
  \<open>n\<close> steps and build \<^verbatim>\<open>100 * np.exp(np.cumsum(steps))\<close>.
\<close>

fun dummy_series :: "'g np_random \<Rightarrow> nat \<Rightarrow> string list \<Rightarrow> 'g \<Rightarrow> (string \<times> real list) list \<times> 'g" where
  "dummy_series R n [] g = ([], g)"
| "dummy_series R n (ticker # rest) g =
     (let (steps, g1) = normal R (2 / 10000) (1 / 100) n g;
          series = map (\<lambda>s. 100 * exp s) (cumsum steps);
          (items, g2) = dummy_series R n rest g1
      in ((ticker, series) # items, g2))"

text \<open>
  \<^verbatim>\<open>pd.DataFrame(d, index=dates)\<close> for a dictionary of arrays: one column per key, one
  row per date. pandas raises ValueError when an array's length differs from the
  length of the index (its message, which also gives the two lengths, is shortened here).
\<close>

definition DataFrame :: "(string \<times> real list) list \<Rightarrow> date list \<Rightarrow> exn + dataframe" where
  "DataFrame d dates =
     (if list_all (\<lambda>kv. length (snd kv) = length dates) d
      then Inr \<lparr>columns = map fst d,
                rows = map (\<lambda>i. (dates ! i, map (\<lambda>kv. Some (snd kv ! i)) d)) [0 ..< length dates]\<rparr>
      else Inl (ValueError ''Length of values does not match length of index''))"

text \<open>\<^verbatim>\<open>df[c]\<close> as a list, for a column label \<open>c\<close> that occurs once (the first match).\<close>

definition column_values :: "string \<Rightarrow> dataframe \<Rightarrow> cell option list" where
  "column_values c df = map (\<lambda>r. map_of (zip (columns df) (snd r)) c) (rows df)"

text \<open>
  A geometric random walk as the specification describes it: from a current value,
  every step multiplies the value by the exponential of the step's increment, and the
  values after each step are listed.
\<close>

fun geometric_walk :: "real \<Rightarrow> real list \<Rightarrow> real list" where
  "geometric_walk v [] = []"
| "geometric_walk v (x # xs) = (v * exp x) # geometric_walk (v * exp x) xs"

section \<open>The cleaning steps\<close>

text \<open>
  \<^verbatim>\<open>data.loc[start:]\<close> with a date string on a DatetimeIndex. On an index that is
  monotonic increasing, pandas locates the first position whose date is not before
  \<open>start\<close> (by binary search when \<open>start\<close> is not a label) and keeps the rows from there on.
  On any other index it keeps the rows selected by the mask \<open>start \<le> date\<close>, and raises
  KeyError when \<open>start\<close> is not a label of the index.
\<close>

definition loc_from :: "date \<Rightarrow> dataframe \<Rightarrow> exn + dataframe" where
  "loc_from start df =
     (if sorted (map fst (rows df))
      then Inr (df\<lparr>rows := dropWhile (\<lambda>r. fst r < start) (rows df)\<rparr>)
      else if start \<in> set (map fst (rows df))
      then Inr (df\<lparr>rows := filter (\<lambda>r. start \<le> fst r) (rows df)\<rparr>)
      else Inl (KeyError ''Value based partial slicing on non-monotonic DatetimeIndexes with non-existing keys is not allowed.''))"

text \<open>
  \<^verbatim>\<open>df.drop(columns=names)\<close>: raises KeyError when one of the names is not a column
  label, naming the missing labels as a list; otherwise removes every column with one
  of these labels.
\<close>

definition repr_list :: "string list \<Rightarrow> string" where
  "repr_list xs =
     ''['' @ concat (map (\<lambda>(i, x). (if i = 0 then [] else '', '') @ repr_str x) (zip [0 ..< length xs] xs))
     @ '']''"

definition drop_columns :: "string list \<Rightarrow> dataframe \<Rightarrow> exn + dataframe" where
  "drop_columns names df =
     (if list_all (\<lambda>n. n \<in> set (columns df)) names
      then Inr \<lparr>columns = filter (\<lambda>c. c \<notin> set names) (columns df),
                rows = map (\<lambda>r. (fst r, map snd (filter (\<lambda>cv. fst cv \<notin> set names)
                                                    (zip (columns df) (snd r))))) (rows df)\<rparr>
      else Inl (KeyError (repr_list (filter (\<lambda>n. n \<notin> set (columns df)) names)
                          @ '' not found in axis'')))"

text \<open>\<^verbatim>\<open>df.dropna()\<close>: removes every row that has a NaN in some column.\<close>

definition dropna :: "dataframe \<Rightarrow> dataframe" where
  "dropna df = df\<lparr>rows := filter (\<lambda>r. list_all (\<lambda>c. c \<noteq> None) (snd r)) (rows df)\<rparr>"

section \<open>\<^verbatim>\<open>get_cleaned_data\<close>\<close>

text \<open>
  Steps 1 and 2 of \<^verbatim>\<open>get_cleaned_data\<close>, the \<^verbatim>\<open>try\<close>/\<^verbatim>\<open>except\<close> statement. The outcome of
  \<^verbatim>\<open>yf.download(...)["Close"]\<close> is the input \<open>upstream\<close>: the table it returns, or the
  exception it raises. The handler prints a line, reseeds the global generator with 42
  and builds the synthetic table; an exception raised inside the handler propagates.
\<close>

definition fetch_or_dummy :: "'g np_random \<Rightarrow> exn + dataframe \<Rightarrow> 'g world \<Rightarrow> (exn + dataframe) \<times> 'g world" where
  "fetch_or_dummy R upstream w =
     (case upstream of
        Inr data \<Rightarrow> (Inr data, w)
      | Inl e \<Rightarrow>
          (let w1 = w\<lparr>stdout := stdout w @ [''Error fetching data: '' @ str e @ ''. Generating dummy data.'']\<rparr>;
               w2 = w1\<lparr>rng_state := seed R 42\<rparr>;
               dates = date_range_B (ymd2ord 2025 1 1) (ymd2ord 2025 9 29);
               (items, g) = dummy_series R (length dates) (investment_options @ market_indexes) (rng_state w2)
           in (DataFrame (dict items) dates, w2\<lparr>rng_state := g\<rparr>)))"

text \<open>The whole function: fetch, slice from 2022-07-05, drop the column VFSVX, drop NaN rows.\<close>

definition get_cleaned_data :: "'g np_random \<Rightarrow> exn + dataframe \<Rightarrow> 'g world \<Rightarrow> (exn + dataframe) \<times> 'g world" where
  "get_cleaned_data R upstream w =
     (let (fetched, w1) = fetch_or_dummy R upstream w
      in (case fetched of
            Inl e \<Rightarrow> Inl e
          | Inr data \<Rightarrow>
              (case loc_from (ymd2ord 2022 7 5) data of
                 Inl e \<Rightarrow> Inl e
               | Inr most_recent \<Rightarrow>
                   (case drop_columns [''VFSVX''] most_recent of
                      Inl e \<Rightarrow> Inl e
                    | Inr dropped \<Rightarrow> Inr (dropna dropped))),
          w1))"

section \<open>The endpoint\<close>

text \<open>
  \<^verbatim>\<open>clean_df.to_dict(orient="records")\<close>: one dictionary per row, built by
  \<^verbatim>\<open>dict(zip(columns, row))\<close> from the cells of the row; the index takes no part.
\<close>

definition to_dict_records :: "dataframe \<Rightarrow> pyval list" where
  "to_dict_records df =
     map (\<lambda>r. PDict (dict (zip (columns df) (map PFloat (snd r))))) (rows df)"

text \<open>
  \<^verbatim>\<open>JSONResponse(content=..., status_code=...)\<close> renders its content when it is
  constructed, with \<^verbatim>\<open>json.dumps(..., allow_nan=False)\<close>, which raises ValueError on a
  NaN anywhere in the content.
\<close>

fun jsonable :: "pyval \<Rightarrow> bool" where
  "jsonable (PStr s) = True"
| "jsonable (PInt i) = True"
| "jsonable (PFloat x) = (x \<noteq> None)"
| "jsonable (PList xs) = list_all jsonable xs"
| "jsonable (PDict kvs) = list_all (\<lambda>kv. jsonable (snd kv)) kvs"

definition JSONResponse :: "nat \<Rightarrow> pyval \<Rightarrow> exn + response" where
  "JSONResponse status c =
     (if jsonable c then Inr \<lparr>status_code = status, content = c\<rparr>
      else Inl (ValueError ''Out of range float values are not JSON compliant''))"

text \<open>
  The route handler. \<open>api_try_block\<close> is the body of its \<^verbatim>\<open>try\<close> statement: the response
  it returns, or the exception raised in it. The result of the handler is the response it
  returns, or \<open>Inl e\<close> when an exception leaves the handler and reaches the framework.
\<close>

definition api_try_block :: "'g np_random \<Rightarrow> exn + dataframe \<Rightarrow> 'g world \<Rightarrow> (exn + response) \<times> 'g world" where
  "api_try_block R upstream w =
     (let (cleaned, w1) = get_cleaned_data R upstream w
      in (case cleaned of
            Inl e \<Rightarrow> Inl e
          | Inr clean_df \<Rightarrow>
              (let data_json = to_dict_records clean_df
               in JSONResponse 200
                    (PDict [(''status'', PStr ''success''),
                            (''message'', PStr ''401k portfolio data fetched and cleaned.''),
                            (''data'', PList data_json),
                            (''row_count'', PInt (int (length (rows clean_df))))])),
          w1))"

definition api_get_401k_data :: "'g np_random \<Rightarrow> exn + dataframe \<Rightarrow> 'g world \<Rightarrow> (exn + response) \<times> 'g world" where
  "api_get_401k_data R upstream w =
     (let (attempt, w1) = api_try_block R upstream w
      in (case attempt of
            Inr resp \<Rightarrow> Inr resp
          | Inl e \<Rightarrow>
              JSONResponse 500
                (PDict [(''status'', PStr ''error''),
                        (''message'', PStr (''An error occurred: '' @ str e))]),
          w1))"

section \<open>Derived notions\<close>

text \<open>
  The table that the fallback branch builds, written out: a column per ticker, a row per
  business day. \<open>dummy_days\<close> is the number of these days, and \<open>state_before R k\<close> the
  state of the generator when the comprehension reaches the ticker at position \<open>k\<close>:
  the seeded state after \<open>k\<close> blocks of \<open>dummy_days\<close> draws.
\<close>

definition dummy_table :: "'g np_random \<Rightarrow> dataframe" where
  "dummy_table R =
     (let dates = date_range_B (ymd2ord 2025 1 1) (ymd2ord 2025 9 29);
          items = fst (dummy_series R (length dates) (investment_options @ market_indexes) (seed R 42))
      in \<lparr>columns = map fst items,
          rows = map (\<lambda>i. (dates ! i, map (\<lambda>kv. Some (snd kv ! i)) items)) [0 ..< length dates]\<rparr>)"

definition dummy_days :: nat where
  "dummy_days = length (date_range_B (ymd2ord 2025 1 1) (ymd2ord 2025 9 29))"

definition state_before :: "'g np_random \<Rightarrow> nat \<Rightarrow> 'g" where
  "state_before R k = ((\<lambda>s. snd (standard_normal R dummy_days s)) ^^ k) (seed R 42)"

section \<open>Concrete inputs\<close>

text \<open>
  A small generator (every draw is 1), a starting state, and a table of three columns and
  five days around the cut-off with two incomplete rows; the theorems below are run on them.
\<close>

definition unit_rng :: "nat np_random" where
  "unit_rng = \<lparr>seed = (\<lambda>s. s), gauss = (\<lambda>g. (1, Suc g))\<rparr>"

definition start_world :: "nat world" where
  "start_world = \<lparr>rng_state = 0, stdout = []\<rparr>"

definition small_table :: dataframe where
  "small_table =
     \<lparr>columns = [''FXAIX'', ''VFSVX'', ''TIP''],
      rows = [(ymd2ord 2022 7 1, [Some 10, Some 20, Some 30]),
              (ymd2ord 2022 7 5, [Some 11, None, Some 31]),
              (ymd2ord 2022 7 6, [Some 12, Some 22, None]),
              (ymd2ord 2022 7 7, [Some 13, None, Some 33]),
              (ymd2ord 2022 7 8, [None, Some 24, Some 34])]\<rparr>"

text \<open>The same days without 2022-07-05, the cut-off.\<close>

definition gap_table :: dataframe where
  "gap_table =
     \<lparr>columns = [''FXAIX'', ''VFSVX'', ''TIP''],
      rows = [(ymd2ord 2022 7 1, [Some 10, Some 20, Some 30]),
              (ymd2ord 2022 7 6, [Some 12, Some 22, None]),
              (ymd2ord 2022 7 7, [Some 13, None, Some 33]),
              (ymd2ord 2022 7 8, [None, Some 24, Some 34])]\<rparr>"

text \<open>A table without the column VFSVX.\<close>

definition table_without_VFSVX :: dataframe where
  "table_without_VFSVX =
     \<lparr>columns = [''FXAIX'', ''TIP''],
      rows = [(ymd2ord 2022 7 1, [Some 10, Some 30]),
              (ymd2ord 2022 7 5, [Some 11, Some 31])]\<rparr>"

text \<open>The synthetic table that the generator \<open>unit_rng\<close> gives when the download fails.\<close>

definition unit_dummy :: dataframe where
  "unit_dummy =
     (case fst (fetch_or_dummy unit_rng (Inl (Exception ''no network'')) start_world) of
        Inr data \<Rightarrow> data
      | Inl e \<Rightarrow> \<lparr>columns = [], rows = []\<rparr>)"

text \<open>The response the endpoint gives for \<open>small_table\<close>, and the one for
  \<open>table_without_VFSVX\<close>.\<close>

definition small_response :: response where
  "small_response =
     \<lparr>status_code = 200,
      content = PDict [(''status'', PStr ''success''),
                       (''message'', PStr ''401k portfolio data fetched and cleaned.''),
                       (''data'', PList [PDict [(''FXAIX'', PFloat (Some 11)), (''TIP'', PFloat (Some 31))],
                                         PDict [(''FXAIX'', PFloat (Some 13)), (''TIP'', PFloat (Some 33))]]),
                       (''row_count'', PInt 2)]\<rparr>"

definition missing_column_error :: exn where
  "missing_column_error = KeyError (repr_list [''VFSVX''] @ '' not found in axis'')"

definition error_response :: "exn \<Rightarrow> response" where
  "error_response e =
     \<lparr>status_code = 500,
      content = PDict [(''status'', PStr ''error''),
                       (''message'', PStr (''An error occurred: '' @ str e))]\<rparr>"

section \<open>Dictionaries: keys and items\<close>

lemma set_dict_setitem: "set (dict_setitem k v d) \<subseteq> insert (k, v) (set d)"
  by (induction d) (auto split: if_splits)

lemma keys_dict_setitem: "fst ` set (dict_setitem k v d) = insert k (fst ` set d)"
  by (induction k v d rule: dict_setitem.induct) (simp_all add: insert_commute)

lemma set_fold_setitem:
  "set (fold (\<lambda>(k, v) d. dict_setitem k v d) kvs acc) \<subseteq> set kvs \<union> set acc"
proof (induction kvs arbitrary: acc)
  case Nil
  show ?case by simp
next
  case (Cons kv kvs)
  obtain k v where kv: "kv = (k, v)" by (cases kv)
  have "set (fold (\<lambda>(k, v) d. dict_setitem k v d) kvs (dict_setitem k v acc))
          \<subseteq> set kvs \<union> set (dict_setitem k v acc)"
    by (rule Cons.IH)
  also have "\<dots> \<subseteq> set kvs \<union> insert (k, v) (set acc)"
    using set_dict_setitem [of k v acc] by blast
  finally show ?case by (auto simp: kv)
qed

lemma keys_fold_setitem:
  "fst ` set (fold (\<lambda>(k, v) d. dict_setitem k v d) kvs acc) = fst ` set kvs \<union> fst ` set acc"
proof (induction kvs arbitrary: acc)
  case Nil
  show ?case by simp
next
  case (Cons kv kvs)
  obtain k v where kv: "kv = (k, v)" by (cases kv)
  show ?case
    by (simp add: kv Cons.IH keys_dict_setitem)
qed

lemma set_dict: "set (dict kvs) \<subseteq> set kvs"
  using set_fold_setitem [of kvs "[]"] by (simp add: dict_def)

lemma keys_dict: "fst ` set (dict kvs) = fst ` set kvs"
  using keys_fold_setitem [of kvs "[]"] by (simp add: dict_def)

lemma dict_setitem_fresh: "k \<notin> fst ` set d \<Longrightarrow> dict_setitem k v d = d @ [(k, v)]"
  by (induction d) auto

lemma fold_setitem_distinct:
  "distinct (map fst kvs) \<Longrightarrow> fst ` set kvs \<inter> fst ` set acc = {} \<Longrightarrow>
   fold (\<lambda>(k, v) d. dict_setitem k v d) kvs acc = acc @ kvs"
proof (induction kvs arbitrary: acc)
  case Nil
  show ?case by simp
next
  case (Cons kv kvs)
  obtain k v where kv: "kv = (k, v)" by (cases kv)
  have fresh: "k \<notin> fst ` set acc" using Cons.prems(2) by (auto simp: kv)
  have "fold (\<lambda>(k, v) d. dict_setitem k v d) kvs (acc @ [(k, v)]) = (acc @ [(k, v)]) @ kvs"
  proof (rule Cons.IH)
    show "distinct (map fst kvs)" using Cons.prems(1) by simp
    show "fst ` set kvs \<inter> fst ` set (acc @ [(k, v)]) = {}"
      using Cons.prems by (auto simp: kv)
  qed
  then show ?case by (simp add: kv dict_setitem_fresh [OF fresh])
qed

lemma dict_distinct: "distinct (map fst kvs) \<Longrightarrow> dict kvs = kvs"
  using fold_setitem_distinct [of kvs "[]"] by (simp add: dict_def)

section \<open>The date slice\<close>

lemma dropWhile_sorted_filter:
  "sorted (map fst rs) \<Longrightarrow> dropWhile (\<lambda>r. fst r < s) rs = filter (\<lambda>r. (s::nat) \<le> fst r) rs"
proof (induction rs)
  case Nil
  show ?case by simp
next
  case (Cons r rs)
  show ?case
  proof (cases "fst r < s")
    case True
    with Cons show ?thesis by simp
  next
    case False
    have "\<forall>x\<in>set rs. s \<le> fst x" using Cons.prems False by auto
    then have "filter (\<lambda>r. s \<le> fst r) rs = rs" by (simp add: filter_id_conv)
    with False show ?thesis by simp
  qed
qed

lemma loc_from_Inr:
  "loc_from s df = Inr mr \<Longrightarrow> mr = df\<lparr>rows := filter (\<lambda>r. s \<le> fst r) (rows df)\<rparr>"
  by (auto simp: loc_from_def dropWhile_sorted_filter split: if_splits)

section \<open>The fixed dates and tickers\<close>

lemma cutoff_value: "ymd2ord 2022 7 5 = 738341"
  by (simp add: ymd2ord_def days_before_year_def days_before_month_def days_in_month_def is_leap_def)

lemma start_value: "ymd2ord 2025 1 1 = 739252"
  by (simp add: ymd2ord_def days_before_year_def days_before_month_def days_in_month_def is_leap_def)

lemma end_value: "ymd2ord 2025 9 29 = 739523"
  by (simp add: ymd2ord_def days_before_year_def days_before_month_def days_in_month_def is_leap_def)

lemma tickers_distinct: "distinct (investment_options @ market_indexes)"
  by (simp add: investment_options_def market_indexes_def)

section \<open>What a successful run returns\<close>

lemma get_cleaned_data_Inr:
  assumes "fst (get_cleaned_data R up w) = Inr c"
  shows "\<exists>data. fst (fetch_or_dummy R up w) = Inr data
           \<and> ''VFSVX'' \<in> set (columns data)
           \<and> columns c = filter (\<lambda>x. x \<noteq> ''VFSVX'') (columns data)
           \<and> rows c = filter (\<lambda>r. list_all (\<lambda>x. x \<noteq> None) (snd r))
                 (map (\<lambda>r. (fst r, map snd (filter (\<lambda>cv. fst cv \<noteq> ''VFSVX'') (zip (columns data) (snd r)))))
                    (filter (\<lambda>r. ymd2ord 2022 7 5 \<le> fst r) (rows data)))"
proof -
  obtain fetched w1 where f: "fetch_or_dummy R up w = (fetched, w1)"
    by (cases "fetch_or_dummy R up w")
  from assms f obtain data where d: "fetched = Inr data"
    by (cases fetched) (simp_all add: get_cleaned_data_def)
  from assms f d obtain mr where m: "loc_from (ymd2ord 2022 7 5) data = Inr mr"
    by (cases "loc_from (ymd2ord 2022 7 5) data") (simp_all add: get_cleaned_data_def)
  from assms f d m obtain dropped where dr: "drop_columns [''VFSVX''] mr = Inr dropped"
    by (cases "drop_columns [''VFSVX''] mr") (simp_all add: get_cleaned_data_def)
  from assms f d m dr have c: "c = dropna dropped"
    by (simp add: get_cleaned_data_def)
  have mr: "mr = data\<lparr>rows := filter (\<lambda>r. ymd2ord 2022 7 5 \<le> fst r) (rows data)\<rparr>"
    using m by (rule loc_from_Inr)
  from dr have inc: "''VFSVX'' \<in> set (columns mr)"
    and dropped: "dropped = \<lparr>columns = filter (\<lambda>c. c \<noteq> ''VFSVX'') (columns mr),
                rows = map (\<lambda>r. (fst r, map snd (filter (\<lambda>cv. fst cv \<noteq> ''VFSVX'')
                                                    (zip (columns mr) (snd r))))) (rows mr)\<rparr>"
    by (auto simp: drop_columns_def split: if_splits)
  show ?thesis
    using f d inc by (intro exI [of _ data]) (simp add: c dropped mr dropna_def)
qed

lemma cleaned_no_VFSVX:
  "fst (get_cleaned_data R up w) = Inr c \<Longrightarrow> ''VFSVX'' \<notin> set (columns c)"
  by (drule get_cleaned_data_Inr) auto

lemma cleaned_complete:
  "fst (get_cleaned_data R up w) = Inr c \<Longrightarrow> r \<in> set (rows c) \<Longrightarrow> None \<notin> set (snd r)"
  by (drule get_cleaned_data_Inr) (auto simp: list_all_iff)

lemma cleaned_dates:
  "fst (get_cleaned_data R up w) = Inr c \<Longrightarrow> r \<in> set (rows c) \<Longrightarrow> ymd2ord 2022 7 5 \<le> fst r"
  by (drule get_cleaned_data_Inr) auto

section \<open>The two outcomes of the endpoint\<close>

lemma api_try_block_Inr:
  assumes "fst (api_try_block R up w) = Inr resp"
  shows "\<exists>c. fst (get_cleaned_data R up w) = Inr c
           \<and> resp = \<lparr>status_code = 200,
                      content = PDict [(''status'', PStr ''success''),
                            (''message'', PStr ''401k portfolio data fetched and cleaned.''),
                            (''data'', PList (to_dict_records c)),
                            (''row_count'', PInt (int (length (rows c))))]\<rparr>"
proof -
  obtain cleaned w1 where g: "get_cleaned_data R up w = (cleaned, w1)"
    by (cases "get_cleaned_data R up w")
  from assms g obtain c where c: "cleaned = Inr c"
    by (cases cleaned) (simp_all add: api_try_block_def)
  from assms g c show ?thesis
    by (auto simp: api_try_block_def JSONResponse_def Let_def split: if_splits)
qed

lemma api_cases:
  "(\<exists>resp. fst (api_try_block R up w) = Inr resp \<and> fst (api_get_401k_data R up w) = Inr resp)
   \<or> (\<exists>e. fst (api_try_block R up w) = Inl e
          \<and> fst (api_get_401k_data R up w) =
              Inr \<lparr>status_code = 500,
                   content = PDict [(''status'', PStr ''error''),
                                    (''message'', PStr (''An error occurred: '' @ str e))]\<rparr>)"
proof -
  obtain attempt w1 where a: "api_try_block R up w = (attempt, w1)"
    by (cases "api_try_block R up w")
  show ?thesis
    using a by (cases attempt) (simp_all add: api_get_401k_data_def JSONResponse_def)
qed

lemma api_200:
  assumes "fst (api_get_401k_data R up w) = Inr resp" "status_code resp = 200"
  shows "\<exists>c. fst (get_cleaned_data R up w) = Inr c
           \<and> content resp = PDict [(''status'', PStr ''success''),
                            (''message'', PStr ''401k portfolio data fetched and cleaned.''),
                            (''data'', PList (to_dict_records c)),
                            (''row_count'', PInt (int (length (rows c))))]"
proof -
  from api_cases [of R up w] assms have "fst (api_try_block R up w) = Inr resp"
    by auto
  from api_try_block_Inr [OF this] show ?thesis by auto
qed

section \<open>The endpoint on the concrete tables\<close>

lemmas date_defs = ymd2ord_def days_before_year_def days_before_month_def days_in_month_def is_leap_def

lemma small_table_cleaned:
  "fst (get_cleaned_data unit_rng (Inr small_table) start_world) =
     Inr \<lparr>columns = [''FXAIX'', ''TIP''],
          rows = [(ymd2ord 2022 7 5, [Some 11, Some 31]), (ymd2ord 2022 7 7, [Some 13, Some 33])]\<rparr>"
  by (simp add: get_cleaned_data_def fetch_or_dummy_def loc_from_def drop_columns_def dropna_def
        small_table_def date_defs)

lemma small_table_response:
  "fst (api_get_401k_data unit_rng (Inr small_table) start_world) = Inr small_response"
proof -
  obtain w1 where "get_cleaned_data unit_rng (Inr small_table) start_world =
     (Inr \<lparr>columns = [''FXAIX'', ''TIP''],
          rows = [(ymd2ord 2022 7 5, [Some 11, Some 31]), (ymd2ord 2022 7 7, [Some 13, Some 33])]\<rparr>, w1)"
    using small_table_cleaned by (cases "get_cleaned_data unit_rng (Inr small_table) start_world") simp
  then show ?thesis
    by (simp add: api_get_401k_data_def api_try_block_def to_dict_records_def dict_def
          JSONResponse_def small_response_def)
qed

lemma no_VFSVX_cleaned:
  "fst (get_cleaned_data unit_rng (Inr table_without_VFSVX) start_world) = Inl missing_column_error"
  by (simp add: get_cleaned_data_def fetch_or_dummy_def loc_from_def drop_columns_def
        table_without_VFSVX_def date_defs missing_column_error_def)

lemma no_VFSVX_response:
  "fst (api_get_401k_data unit_rng (Inr table_without_VFSVX) start_world) = Inr (error_response missing_column_error)"
proof -
  obtain w1 where "get_cleaned_data unit_rng (Inr table_without_VFSVX) start_world = (Inl missing_column_error, w1)"
    using no_VFSVX_cleaned by (cases "get_cleaned_data unit_rng (Inr table_without_VFSVX) start_world") simp
  then show ?thesis
    by (simp add: api_get_401k_data_def api_try_block_def JSONResponse_def error_response_def)
qed

lemma error_text: "str missing_column_error = [CHR 0x22] @ ''['' @ [CHR 0x27] @ ''VFSVX'' @ [CHR 0x27] @ ''] not found in axis'' @ [CHR 0x22]"
  by (simp add: missing_column_error_def repr_list_def repr_str_def)

lemma in_set_zipD: "kv \<in> set (zip xs ys) \<Longrightarrow> fst kv \<in> set xs \<and> snd kv \<in> set ys"
  by (metis prod.collapse set_zip_leftD set_zip_rightD)

section \<open>Claims about a successful response\<close>

text \<open>
  C9. In every response of status 200 of \<^verbatim>\<open>GET /get-401k-data\<close>, the field \<open>row_count\<close> is
  the number of elements of the array \<open>data\<close>.
\<close>

theorem row_count_is_length_of_data:
  assumes "fst (api_get_401k_data R up w) = Inr resp" and "status_code resp = 200"
  shows "\<exists>msg data. content resp =
           PDict [(''status'', PStr ''success''), (''message'', PStr msg),
                  (''data'', PList data), (''row_count'', PInt (int (length data)))]"
proof -
  from api_200 [OF assms] obtain c where
    "content resp = PDict [(''status'', PStr ''success''),
        (''message'', PStr ''401k portfolio data fetched and cleaned.''),
        (''data'', PList (to_dict_records c)), (''row_count'', PInt (int (length (rows c))))]"
    by blast
  moreover have "length (to_dict_records c) = length (rows c)"
    by (simp add: to_dict_records_def)
  ultimately show ?thesis by simp
qed

theorem row_count_is_length_of_data_witness:
  "fst (api_get_401k_data unit_rng (Inr small_table) start_world) = Inr small_response
   \<and> status_code small_response = 200
   \<and> (\<exists>msg data. content small_response =
           PDict [(''status'', PStr ''success''), (''message'', PStr msg),
                  (''data'', PList data), (''row_count'', PInt (int (length data)))])"
proof -
  have run: "fst (api_get_401k_data unit_rng (Inr small_table) start_world) = Inr small_response"
    by (rule small_table_response)
  have ok: "status_code small_response = 200"
    by (simp add: small_response_def)
  from row_count_is_length_of_data [OF run ok] run ok show ?thesis by simp
qed

text \<open>
  C1. In every response of status 200, no row-object of \<open>data\<close> has a missing value (NaN)
  in any field, and none has the key VFSVX: every row-object is a dictionary whose values
  are all floats that are numbers.
\<close>

theorem success_rows_complete_without_VFSVX:
  assumes "fst (api_get_401k_data R up w) = Inr resp" and "status_code resp = 200"
  shows "\<exists>msg data n. content resp =
           PDict [(''status'', PStr ''success''), (''message'', PStr msg),
                  (''data'', PList data), (''row_count'', PInt n)]
         \<and> (\<forall>obj\<in>set data. \<exists>kvs. obj = PDict kvs
               \<and> ''VFSVX'' \<notin> fst ` set kvs
               \<and> (\<forall>kv\<in>set kvs. \<exists>x. snd kv = PFloat (Some x)))"
proof -
  from api_200 [OF assms] obtain c where
    c: "fst (get_cleaned_data R up w) = Inr c" and
    body: "content resp = PDict [(''status'', PStr ''success''),
        (''message'', PStr ''401k portfolio data fetched and cleaned.''),
        (''data'', PList (to_dict_records c)), (''row_count'', PInt (int (length (rows c))))]"
    by blast
  have "\<exists>kvs. obj = PDict kvs \<and> ''VFSVX'' \<notin> fst ` set kvs
          \<and> (\<forall>kv\<in>set kvs. \<exists>x. snd kv = PFloat (Some x))"
    if "obj \<in> set (to_dict_records c)" for obj
  proof -
    from that obtain r where r: "r \<in> set (rows c)"
      and obj: "obj = PDict (dict (zip (columns c) (map PFloat (snd r))))"
      by (auto simp: to_dict_records_def)
    let ?kvs = "dict (zip (columns c) (map PFloat (snd r)))"
    have sub: "set ?kvs \<subseteq> set (zip (columns c) (map PFloat (snd r)))"
      by (rule set_dict)
    have "''VFSVX'' \<notin> fst ` set ?kvs"
    proof
      assume "''VFSVX'' \<in> fst ` set ?kvs"
      then obtain v where "(''VFSVX'', v) \<in> set ?kvs" by auto
      with sub have "(''VFSVX'', v) \<in> set (zip (columns c) (map PFloat (snd r)))" by blast
      then have "''VFSVX'' \<in> set (columns c)" by (rule set_zip_leftD)
      with cleaned_no_VFSVX [OF c] show False by simp
    qed
    moreover have "\<exists>x. snd kv = PFloat (Some x)" if "kv \<in> set ?kvs" for kv
    proof -
      from that sub have "kv \<in> set (zip (columns c) (map PFloat (snd r)))" by blast
      then have "snd kv \<in> set (map PFloat (snd r))"
        using in_set_zipD by blast
      then obtain y where y: "y \<in> set (snd r)" and kv: "snd kv = PFloat y" by auto
      from cleaned_complete [OF c r] y have "y \<noteq> None" by metis
      then obtain x where "y = Some x" by (cases y) simp_all
      with kv show ?thesis by simp
    qed
    ultimately show ?thesis using obj by blast
  qed
  with body show ?thesis by blast
qed

theorem success_rows_complete_without_VFSVX_witness:
  "fst (api_get_401k_data unit_rng (Inr small_table) start_world) = Inr small_response
   \<and> status_code small_response = 200
   \<and> (\<exists>msg data n. content small_response =
           PDict [(''status'', PStr ''success''), (''message'', PStr msg),
                  (''data'', PList data), (''row_count'', PInt n)]
         \<and> (\<forall>obj\<in>set data. \<exists>kvs. obj = PDict kvs
               \<and> ''VFSVX'' \<notin> fst ` set kvs
               \<and> (\<forall>kv\<in>set kvs. \<exists>x. snd kv = PFloat (Some x))))"
proof -
  have run: "fst (api_get_401k_data unit_rng (Inr small_table) start_world) = Inr small_response"
    by (rule small_table_response)
  have ok: "status_code small_response = 200"
    by (simp add: small_response_def)
  from success_rows_complete_without_VFSVX [OF run ok] run ok show ?thesis by blast
qed

text \<open>
  C4. In every response of status 200, the elements of \<open>data\<close> are, one for one and in
  order, the records of the rows of the cleaned table, and the date of each of these rows
  is 2022-07-05 or later.
\<close>

theorem success_rows_dated_from_cutoff:
  assumes "fst (api_get_401k_data R up w) = Inr resp" and "status_code resp = 200"
  shows "\<exists>c msg data n. fst (get_cleaned_data R up w) = Inr c
         \<and> content resp =
           PDict [(''status'', PStr ''success''), (''message'', PStr msg),
                  (''data'', PList data), (''row_count'', PInt n)]
         \<and> list_all2 (\<lambda>obj r. obj = PDict (dict (zip (columns c) (map PFloat (snd r))))
                              \<and> ymd2ord 2022 7 5 \<le> fst r) data (rows c)"
proof -
  from api_200 [OF assms] obtain c where
    c: "fst (get_cleaned_data R up w) = Inr c" and
    body: "content resp = PDict [(''status'', PStr ''success''),
        (''message'', PStr ''401k portfolio data fetched and cleaned.''),
        (''data'', PList (to_dict_records c)), (''row_count'', PInt (int (length (rows c))))]"
    by blast
  have "list_all2 (\<lambda>obj r. obj = PDict (dict (zip (columns c) (map PFloat (snd r))))
                              \<and> ymd2ord 2022 7 5 \<le> fst r) (to_dict_records c) (rows c)"
    using cleaned_dates [OF c]
    by (simp add: to_dict_records_def list_all2_map1 list_all2_same)
  with c body show ?thesis by blast
qed

theorem success_rows_dated_from_cutoff_witness:
  "fst (api_get_401k_data unit_rng (Inr small_table) start_world) = Inr small_response
   \<and> status_code small_response = 200
   \<and> (\<exists>c msg data n. fst (get_cleaned_data unit_rng (Inr small_table) start_world) = Inr c
         \<and> content small_response =
           PDict [(''status'', PStr ''success''), (''message'', PStr msg),
                  (''data'', PList data), (''row_count'', PInt n)]
         \<and> list_all2 (\<lambda>obj r. obj = PDict (dict (zip (columns c) (map PFloat (snd r))))
                              \<and> ymd2ord 2022 7 5 \<le> fst r) data (rows c))"
proof -
  have run: "fst (api_get_401k_data unit_rng (Inr small_table) start_world) = Inr small_response"
    by (rule small_table_response)
  have ok: "status_code small_response = 200"
    by (simp add: small_response_def)
  from success_rows_dated_from_cutoff [OF run ok] run ok show ?thesis by blast
qed

text \<open>
  C10. In every response of status 200, every row-object of \<open>data\<close> is a dictionary whose
  keys are column labels of the fetched table other than VFSVX and whose values are
  floats; the records do not depend on the date index: relabelling the index of the
  cleaned table in any way gives the same \<open>data\<close>.
\<close>

theorem records_carry_no_date:
  assumes "fst (api_get_401k_data R up w) = Inr resp" and "status_code resp = 200"
  shows "\<exists>fetched c msg data n.
           fst (fetch_or_dummy R up w) = Inr fetched
         \<and> fst (get_cleaned_data R up w) = Inr c
         \<and> content resp =
           PDict [(''status'', PStr ''success''), (''message'', PStr msg),
                  (''data'', PList data), (''row_count'', PInt n)]
         \<and> (\<forall>obj\<in>set data. \<exists>kvs. obj = PDict kvs
               \<and> fst ` set kvs \<subseteq> set (columns fetched) - {''VFSVX''}
               \<and> (\<forall>kv\<in>set kvs. \<exists>x. snd kv = PFloat x))
         \<and> (\<forall>f. to_dict_records (c\<lparr>rows := map (\<lambda>r. (f (fst r), snd r)) (rows c)\<rparr>) = data)"
proof -
  from api_200 [OF assms] obtain c where
    c: "fst (get_cleaned_data R up w) = Inr c" and
    body: "content resp = PDict [(''status'', PStr ''success''),
        (''message'', PStr ''401k portfolio data fetched and cleaned.''),
        (''data'', PList (to_dict_records c)), (''row_count'', PInt (int (length (rows c))))]"
    by blast
  from get_cleaned_data_Inr [OF c] obtain fetched where
    f: "fst (fetch_or_dummy R up w) = Inr fetched" and
    cols: "columns c = filter (\<lambda>x. x \<noteq> ''VFSVX'') (columns fetched)"
    by blast
  have keys: "\<exists>kvs. obj = PDict kvs
               \<and> fst ` set kvs \<subseteq> set (columns fetched) - {''VFSVX''}
               \<and> (\<forall>kv\<in>set kvs. \<exists>x. snd kv = PFloat x)"
    if "obj \<in> set (to_dict_records c)" for obj
  proof -
    from that obtain r where "r \<in> set (rows c)"
      and obj: "obj = PDict (dict (zip (columns c) (map PFloat (snd r))))"
      by (auto simp: to_dict_records_def)
    let ?kvs = "dict (zip (columns c) (map PFloat (snd r)))"
    have sub: "set ?kvs \<subseteq> set (zip (columns c) (map PFloat (snd r)))"
      by (rule set_dict)
    have "fst ` set ?kvs \<subseteq> set (columns fetched) - {''VFSVX''}"
    proof
      fix k assume "k \<in> fst ` set ?kvs"
      then obtain v where "(k, v) \<in> set ?kvs" by auto
      with sub have "(k, v) \<in> set (zip (columns c) (map PFloat (snd r)))" by blast
      then have "k \<in> set (columns c)" by (rule set_zip_leftD)
      then show "k \<in> set (columns fetched) - {''VFSVX''}" by (simp add: cols)
    qed
    moreover have "\<exists>x. snd kv = PFloat x" if "kv \<in> set ?kvs" for kv
    proof -
      from that sub have "kv \<in> set (zip (columns c) (map PFloat (snd r)))" by blast
      then have "snd kv \<in> set (map PFloat (snd r))"
        using in_set_zipD by blast
      then show ?thesis by auto
    qed
    ultimately show ?thesis using obj by blast
  qed
  have idx: "to_dict_records (c\<lparr>rows := map (\<lambda>r. (f (fst r), snd r)) (rows c)\<rparr>) = to_dict_records c" for f
    by (simp add: to_dict_records_def comp_def)
  from f c body keys idx show ?thesis by blast
qed

theorem records_carry_no_date_witness:
  "fst (api_get_401k_data unit_rng (Inr small_table) start_world) = Inr small_response
   \<and> status_code small_response = 200
   \<and> (\<exists>fetched c msg data n.
           fst (fetch_or_dummy unit_rng (Inr small_table) start_world) = Inr fetched
         \<and> fst (get_cleaned_data unit_rng (Inr small_table) start_world) = Inr c
         \<and> content small_response =
           PDict [(''status'', PStr ''success''), (''message'', PStr msg),
                  (''data'', PList data), (''row_count'', PInt n)]
         \<and> (\<forall>obj\<in>set data. \<exists>kvs. obj = PDict kvs
               \<and> fst ` set kvs \<subseteq> set (columns fetched) - {''VFSVX''}
               \<and> (\<forall>kv\<in>set kvs. \<exists>x. snd kv = PFloat x))
         \<and> (\<forall>f. to_dict_records (c\<lparr>rows := map (\<lambda>r. (f (fst r), snd r)) (rows c)\<rparr>) = data))"
proof -
  have run: "fst (api_get_401k_data unit_rng (Inr small_table) start_world) = Inr small_response"
    by (rule small_table_response)
  have ok: "status_code small_response = 200"
    by (simp add: small_response_def)
  from records_carry_no_date [OF run ok] run ok show ?thesis by blast
qed

section \<open>Claims about errors\<close>

lemma api_try_block_raises:
  "fst (get_cleaned_data R up w) = Inl e \<Longrightarrow> fst (api_try_block R up w) = Inl e"
  by (cases "get_cleaned_data R up w") (simp add: api_try_block_def)

text \<open>
  C7. The endpoint always returns a response: no exception leaves the handler. Whenever
  \<^verbatim>\<open>get_cleaned_data\<close> raises, or anything else in the \<^verbatim>\<open>try\<close> block does (the
  serialisation, the construction of the response), the response has status 500 and its
  content is exactly the dictionary with the two keys \<open>status\<close> (the string \<open>error\<close>) and
  \<open>message\<close> (a string): no data is part of it.
\<close>

theorem errors_become_status_500:
  "(\<exists>resp. fst (api_get_401k_data R up w) = Inr resp)
   \<and> (\<forall>e. fst (get_cleaned_data R up w) = Inl e \<or> fst (api_try_block R up w) = Inl e \<longrightarrow>
          fst (api_get_401k_data R up w) =
            Inr \<lparr>status_code = 500,
                 content = PDict [(''status'', PStr ''error''),
                                  (''message'', PStr (''An error occurred: '' @ str e))]\<rparr>)"
proof (intro conjI allI impI)
  show "\<exists>resp. fst (api_get_401k_data R up w) = Inr resp"
    using api_cases [of R up w] by auto
next
  fix e
  assume "fst (get_cleaned_data R up w) = Inl e \<or> fst (api_try_block R up w) = Inl e"
  then have "fst (api_try_block R up w) = Inl e"
    using api_try_block_raises by blast
  then show "fst (api_get_401k_data R up w) =
            Inr \<lparr>status_code = 500,
                 content = PDict [(''status'', PStr ''error''),
                                  (''message'', PStr (''An error occurred: '' @ str e))]\<rparr>"
    using api_cases [of R up w] by auto
qed

theorem errors_become_status_500_witness:
  "fst (get_cleaned_data unit_rng (Inr table_without_VFSVX) start_world) = Inl missing_column_error
   \<and> fst (api_get_401k_data unit_rng (Inr table_without_VFSVX) start_world) =
            Inr \<lparr>status_code = 500,
                 content = PDict [(''status'', PStr ''error''),
                                  (''message'', PStr (''An error occurred: '' @ str missing_column_error))]\<rparr>"
  using errors_become_status_500 [of unit_rng "Inr table_without_VFSVX" start_world] no_VFSVX_cleaned
  by blast

text \<open>
  C6. When the table that the date slice returns has no column VFSVX,
  \<^verbatim>\<open>get_cleaned_data\<close> raises the KeyError of \<^verbatim>\<open>drop\<close> (``['VFSVX'] not found in axis'');
  it does not go on without dropping.
\<close>

theorem missing_column_raises:
  assumes "loc_from (ymd2ord 2022 7 5) df = Inr most_recent"
    and "''VFSVX'' \<notin> set (columns most_recent)"
  shows "fst (get_cleaned_data R (Inr df) w) =
           Inl (KeyError (repr_list [''VFSVX''] @ '' not found in axis''))"
  using assms by (simp add: get_cleaned_data_def fetch_or_dummy_def drop_columns_def)

theorem missing_column_raises_witness:
  "loc_from (ymd2ord 2022 7 5) table_without_VFSVX =
     Inr (table_without_VFSVX\<lparr>rows := [(ymd2ord 2022 7 5, [Some 11, Some 31])]\<rparr>)
   \<and> ''VFSVX'' \<notin> set (columns (table_without_VFSVX\<lparr>rows := [(ymd2ord 2022 7 5, [Some 11, Some 31])]\<rparr>))
   \<and> fst (get_cleaned_data unit_rng (Inr table_without_VFSVX) start_world) =
           Inl (KeyError (repr_list [''VFSVX''] @ '' not found in axis''))"
proof -
  have sl: "loc_from (ymd2ord 2022 7 5) table_without_VFSVX =
     Inr (table_without_VFSVX\<lparr>rows := [(ymd2ord 2022 7 5, [Some 11, Some 31])]\<rparr>)"
    by (simp add: loc_from_def table_without_VFSVX_def date_defs)
  have no: "''VFSVX'' \<notin> set (columns (table_without_VFSVX\<lparr>rows := [(ymd2ord 2022 7 5, [Some 11, Some 31])]\<rparr>))"
    by (simp add: table_without_VFSVX_def)
  from missing_column_raises [OF sl no, of unit_rng start_world] sl no show ?thesis by simp
qed

section \<open>The date filter\<close>

text \<open>
  C5. On a table whose dates are in ascending order, the date slice succeeds and keeps
  exactly the rows dated 2022-07-05 or later, in their order, whether or not 2022-07-05
  is one of the dates; the dates kept are again ascending.
\<close>

theorem date_filter_keeps_rows_from_cutoff:
  assumes "sorted (map fst (rows df))"
  shows "loc_from (ymd2ord 2022 7 5) df =
           Inr (df\<lparr>rows := filter (\<lambda>r. ymd2ord 2022 7 5 \<le> fst r) (rows df)\<rparr>)
         \<and> sorted (map fst (filter (\<lambda>r. ymd2ord 2022 7 5 \<le> fst r) (rows df)))"
proof
  show "loc_from (ymd2ord 2022 7 5) df =
           Inr (df\<lparr>rows := filter (\<lambda>r. ymd2ord 2022 7 5 \<le> fst r) (rows df)\<rparr>)"
    using assms by (simp add: loc_from_def dropWhile_sorted_filter)
  have "map fst (filter (\<lambda>r. ymd2ord 2022 7 5 \<le> fst r) (rows df))
          = filter (\<lambda>d. ymd2ord 2022 7 5 \<le> d) (map fst (rows df))"
    by (simp add: filter_map comp_def)
  then show "sorted (map fst (filter (\<lambda>r. ymd2ord 2022 7 5 \<le> fst r) (rows df)))"
    using assms by (simp add: sorted_wrt_filter)
qed

theorem date_filter_keeps_rows_from_cutoff_witness:
  "sorted (map fst (rows gap_table))
   \<and> ymd2ord 2022 7 5 \<notin> set (map fst (rows gap_table))
   \<and> loc_from (ymd2ord 2022 7 5) gap_table =
       Inr (gap_table\<lparr>rows := [(ymd2ord 2022 7 6, [Some 12, Some 22, None]),
                               (ymd2ord 2022 7 7, [Some 13, None, Some 33]),
                               (ymd2ord 2022 7 8, [None, Some 24, Some 34])]\<rparr>)"
proof -
  have s: "sorted (map fst (rows gap_table))"
    by (simp add: gap_table_def date_defs)
  have absent: "ymd2ord 2022 7 5 \<notin> set (map fst (rows gap_table))"
    by (simp add: gap_table_def date_defs)
  have kept: "filter (\<lambda>r. ymd2ord 2022 7 5 \<le> fst r) (rows gap_table) =
      [(ymd2ord 2022 7 6, [Some 12, Some 22, None]),
       (ymd2ord 2022 7 7, [Some 13, None, Some 33]),
       (ymd2ord 2022 7 8, [None, Some 24, Some 34])]"
    by (simp add: gap_table_def date_defs)
  from date_filter_keeps_rows_from_cutoff [OF s] s absent show ?thesis
    by (simp add: kept)
qed

text \<open>Outside the claim: on a table whose dates are not ascending and do not include
  the cut-off, the slice raises.\<close>

lemma loc_from_unsorted_absent:
  "\<not> sorted (map fst (rows df)) \<Longrightarrow> s \<notin> set (map fst (rows df)) \<Longrightarrow> \<exists>m. loc_from s df = Inl (KeyError m)"
  by (simp add: loc_from_def)

section \<open>The synthetic table\<close>

lemma business_days_count: "length (date_range_B 739252 739523) = 194"
  by (simp add: date_range_B_def weekday_def)

lemma business_days_sorted: "sorted (date_range_B a b)"
  unfolding date_range_B_def by (rule sorted_wrt_filter) (rule sorted_upt)

lemma business_days_bounds: "d \<in> set (date_range_B a b) \<Longrightarrow> a \<le> d \<and> d \<le> b"
  by (auto simp: date_range_B_def)

lemma length_standard_normal: "length (fst (standard_normal R n g)) = n"
  by (induction n arbitrary: g) (simp_all add: split_beta Let_def)

lemma normal_eq:
  "normal R loc scale n g =
     (map (\<lambda>z. loc + scale * z) (fst (standard_normal R n g)), snd (standard_normal R n g))"
  by (simp add: normal_def split_beta)

lemma length_cumsum_from: "length (cumsum_from a xs) = length xs"
  by (induction xs arbitrary: a) simp_all

lemma walk_cumsum_from: "map (\<lambda>s. c * exp s) (cumsum_from a xs) = geometric_walk (c * exp a) xs"
  by (induction xs arbitrary: a) (simp_all add: exp_add mult.assoc)

lemma walk_cumsum: "map (\<lambda>s. 100 * exp s) (cumsum xs) = geometric_walk 100 xs"
  using walk_cumsum_from [of 100 0 xs] by (simp add: cumsum_def)

lemma length_geometric_walk: "length (geometric_walk v xs) = length xs"
  by (induction xs arbitrary: v) simp_all

text \<open>The steps drawn for the ticker at position \<open>k\<close>, and its series.\<close>

lemma dummy_series_Cons:
  "dummy_series R n (t # ts) g =
     ((t, geometric_walk 100 (map (\<lambda>z. 2 / 10000 + 1 / 100 * z) (fst (standard_normal R n g))))
        # fst (dummy_series R n ts (snd (standard_normal R n g))),
      snd (dummy_series R n ts (snd (standard_normal R n g))))"
  by (simp add: normal_eq walk_cumsum split_beta Let_def)

lemma dummy_series_keys: "map fst (fst (dummy_series R n ts g)) = ts"
  by (induction ts arbitrary: g) (simp_all add: dummy_series_Cons del: dummy_series.simps(2))

lemma dummy_series_lengths:
  "kv \<in> set (fst (dummy_series R n ts g)) \<Longrightarrow> length (snd kv) = n"
  by (induction ts arbitrary: g)
     (auto simp: dummy_series_Cons length_geometric_walk length_standard_normal
           simp del: dummy_series.simps(2))

lemma dummy_series_nth:
  "k < length ts \<Longrightarrow>
   fst (dummy_series R n ts g) ! k =
     (ts ! k, geometric_walk 100 (map (\<lambda>z. 2 / 10000 + 1 / 100 * z)
                (fst (standard_normal R n (((\<lambda>s. snd (standard_normal R n s)) ^^ k) g)))))"
proof (induction ts arbitrary: k g)
  case Nil
  then show ?case by simp
next
  case (Cons t ts)
  show ?case
  proof (cases k)
    case 0
    then show ?thesis by (simp add: dummy_series_Cons del: dummy_series.simps(2))
  next
    case (Suc j)
    with Cons.prems have "j < length ts" by simp
    have step: "((\<lambda>s. snd (standard_normal R n s)) ^^ Suc j) g =
                ((\<lambda>s. snd (standard_normal R n s)) ^^ j) (snd (standard_normal R n g))"
      by (simp only: funpow_Suc_right comp_apply)
    from Cons.IH [OF \<open>j < length ts\<close>, of "snd (standard_normal R n g)"] show ?thesis
      by (simp add: dummy_series_Cons Suc step del: dummy_series.simps(2) funpow.simps)
  qed
qed

lemma DataFrame_Inr:
  assumes "\<forall>kv\<in>set d. length (snd kv) = length dates"
  shows "DataFrame d dates =
     Inr \<lparr>columns = map fst d,
          rows = map (\<lambda>i. (dates ! i, map (\<lambda>kv. Some (snd kv ! i)) d)) [0 ..< length dates]\<rparr>"
  using assms by (simp add: DataFrame_def list_all_iff)

lemma map_of_keyed:
  "distinct (map fst xs) \<Longrightarrow> x \<in> set xs \<Longrightarrow>
   map_of (zip (map fst xs) (map f xs)) (fst x) = Some (f x)"
proof (induction xs)
  case Nil
  then show ?case by simp
next
  case (Cons y ys)
  then show ?case by (cases "x = y") (auto simp: image_iff)
qed

lemma fetch_or_dummy_Inl:
  "fst (fetch_or_dummy R (Inl e) w) = Inr (dummy_table R)"
proof -
  let ?dates = "date_range_B (ymd2ord 2025 1 1) (ymd2ord 2025 9 29)"
  let ?items = "fst (dummy_series R (length ?dates) (investment_options @ market_indexes) (seed R 42))"
  have keys: "map fst ?items = investment_options @ market_indexes"
    by (rule dummy_series_keys)
  then have "distinct (map fst ?items)"
    using tickers_distinct by simp
  then have d: "dict ?items = ?items"
    by (rule dict_distinct)
  have "\<forall>kv\<in>set ?items. length (snd kv) = length ?dates"
    by (simp add: dummy_series_lengths)
  from DataFrame_Inr [OF this] d show ?thesis
    by (simp add: fetch_or_dummy_def split_beta Let_def dummy_table_def)
qed

lemma dummy_days_value: "dummy_days = 194"
  by (simp only: dummy_days_def start_value end_value business_days_count)

lemma dummy_table_columns: "columns (dummy_table R) = investment_options @ market_indexes"
  by (simp add: dummy_table_def Let_def dummy_series_keys)

lemma dummy_table_index:
  "map fst (rows (dummy_table R)) = date_range_B (ymd2ord 2025 1 1) (ymd2ord 2025 9 29)"
  by (simp add: dummy_table_def Let_def comp_def map_nth)

lemma dummy_table_cells: "r \<in> set (rows (dummy_table R)) \<Longrightarrow> None \<notin> set (snd r)"
  by (auto simp: dummy_table_def Let_def)

lemma dummy_table_length: "length (rows (dummy_table R)) = 194"
  using dummy_days_value by (simp add: dummy_table_def Let_def dummy_days_def)

lemma dummy_table_slice: "loc_from (ymd2ord 2022 7 5) (dummy_table R) = Inr (dummy_table R)"
proof -
  have s: "sorted (map fst (rows (dummy_table R)))"
    by (simp add: dummy_table_index business_days_sorted)
  have "ymd2ord 2022 7 5 \<le> fst r" if "r \<in> set (rows (dummy_table R))" for r
  proof -
    from that have "fst r \<in> set (map fst (rows (dummy_table R)))" by simp
    then have "fst r \<in> set (date_range_B (ymd2ord 2025 1 1) (ymd2ord 2025 9 29))"
      by (simp only: dummy_table_index)
    from business_days_bounds [OF this] have "739252 \<le> fst r"
      by (simp only: start_value)
    then show ?thesis
      by (simp add: cutoff_value)
  qed
  then have "filter (\<lambda>r. ymd2ord 2022 7 5 \<le> fst r) (rows (dummy_table R)) = rows (dummy_table R)"
    by (simp add: filter_id_conv)
  with s show ?thesis
    by (simp add: loc_from_def dropWhile_sorted_filter)
qed

lemma dummy_table_cleaned:
  "\<exists>c. drop_columns [''VFSVX''] (dummy_table R) = Inr c
       \<and> fst (get_cleaned_data R (Inl e) w) = Inr c
       \<and> length (rows c) = 194"
proof -
  let ?c = "\<lparr>columns = filter (\<lambda>c. c \<notin> set [''VFSVX'']) (columns (dummy_table R)),
             rows = map (\<lambda>r. (fst r, map snd (filter (\<lambda>cv. fst cv \<notin> set [''VFSVX''])
                                           (zip (columns (dummy_table R)) (snd r)))))
                        (rows (dummy_table R))\<rparr>"
  have "''VFSVX'' \<in> set (columns (dummy_table R))"
    by (simp add: dummy_table_columns investment_options_def)
  then have dr: "drop_columns [''VFSVX''] (dummy_table R) = Inr ?c"
    by (simp add: drop_columns_def)
  have "list_all (\<lambda>x. x \<noteq> None) (snd r)" if "r \<in> set (rows ?c)" for r
  proof -
    from that obtain r0 where r0: "r0 \<in> set (rows (dummy_table R))"
      and r: "snd r = map snd (filter (\<lambda>cv. fst cv \<notin> set [''VFSVX''])
                                           (zip (columns (dummy_table R)) (snd r0)))"
      by auto
    have "x \<noteq> None" if "x \<in> set (snd r)" for x
    proof -
      from that r obtain cv where "cv \<in> set (zip (columns (dummy_table R)) (snd r0))" and "x = snd cv"
        by auto
      then have "x \<in> set (snd r0)" using in_set_zipD by blast
      with dummy_table_cells [OF r0] show ?thesis by metis
    qed
    then show ?thesis by (simp add: list_all_iff)
  qed
  then have "filter (\<lambda>r. list_all (\<lambda>x. x \<noteq> None) (snd r)) (rows ?c) = rows ?c"
    by (simp only: filter_id_conv) blast
  then have dn: "dropna ?c = ?c"
    by (simp add: dropna_def)
  obtain w1 where f: "fetch_or_dummy R (Inl e) w = (Inr (dummy_table R), w1)"
    using fetch_or_dummy_Inl [of R e w] by (cases "fetch_or_dummy R (Inl e) w") simp
  have "fst (get_cleaned_data R (Inl e) w) = Inr ?c"
    by (simp add: get_cleaned_data_def f dummy_table_slice dr dn del: set_simps)
  moreover have "length (rows ?c) = 194"
    by (simp add: dummy_table_length)
  ultimately show ?thesis using dr by blast
qed

lemma records_jsonable:
  assumes "\<forall>r\<in>set (rows c). None \<notin> set (snd r)"
  shows "list_all jsonable (to_dict_records c)"
proof -
  have "jsonable obj" if "obj \<in> set (to_dict_records c)" for obj
  proof -
    from that obtain r where r: "r \<in> set (rows c)"
      and obj: "obj = PDict (dict (zip (columns c) (map PFloat (snd r))))"
      by (auto simp: to_dict_records_def)
    have "jsonable (snd kv)" if "kv \<in> set (dict (zip (columns c) (map PFloat (snd r))))" for kv
    proof -
      from that set_dict have "kv \<in> set (zip (columns c) (map PFloat (snd r)))" by blast
      then have "snd kv \<in> set (map PFloat (snd r))" using in_set_zipD by blast
      then obtain y where y: "y \<in> set (snd r)" and kv: "snd kv = PFloat y" by auto
      from assms r y have "y \<noteq> None" by metis
      with kv show ?thesis by simp
    qed
    with obj show ?thesis by (simp add: list_all_iff)
  qed
  then show ?thesis by (simp add: list_all_iff)
qed

lemma api_of_cleaned:
  assumes "fst (get_cleaned_data R up w) = Inr c"
  shows "fst (api_get_401k_data R up w) =
           Inr \<lparr>status_code = 200,
                content = PDict [(''status'', PStr ''success''),
                                 (''message'', PStr ''401k portfolio data fetched and cleaned.''),
                                 (''data'', PList (to_dict_records c)),
                                 (''row_count'', PInt (int (length (rows c))))]\<rparr>"
proof -
  obtain w1 where g: "get_cleaned_data R up w = (Inr c, w1)"
    using assms by (cases "get_cleaned_data R up w") simp
  have "list_all jsonable (to_dict_records c)"
    using cleaned_complete [OF assms] by (intro records_jsonable) blast
  then show ?thesis
    by (simp add: api_get_401k_data_def api_try_block_def g JSONResponse_def)
qed

section \<open>Claims about the fallback\<close>

text \<open>
  C8. The synthetic table does not depend on the state of the random generator in which
  the fallback branch starts, nor on the exception that led to it: any two runs of the
  branch give the same table (dates, columns and values), in particular a second run
  that starts in the state the first one left.
\<close>

theorem fallback_is_deterministic:
  "fst (fetch_or_dummy R (Inl e1) w1) = fst (fetch_or_dummy R (Inl e2) w2)
   \<and> fst (fetch_or_dummy R (Inl e2) (snd (fetch_or_dummy R (Inl e1) w1)))
       = fst (fetch_or_dummy R (Inl e1) w1)"
proof -
  have first: "fst (fetch_or_dummy R (Inl e1) w1) = Inr (dummy_table R)"
    by (rule fetch_or_dummy_Inl)
  moreover have "fst (fetch_or_dummy R (Inl e2) w2) = Inr (dummy_table R)"
    by (rule fetch_or_dummy_Inl)
  moreover have "fst (fetch_or_dummy R (Inl e2) (snd (fetch_or_dummy R (Inl e1) w1)))
                   = Inr (dummy_table R)"
    by (rule fetch_or_dummy_Inl)
  ultimately show ?thesis by simp
qed

theorem fallback_is_deterministic_witness:
  "fst (fetch_or_dummy unit_rng (Inl (Exception ''no network'')) start_world)
     = fst (fetch_or_dummy unit_rng (Inl (KeyError ''Close'')) (start_world\<lparr>rng_state := 7\<rparr>))
   \<and> fst (fetch_or_dummy unit_rng (Inl (KeyError ''Close''))
            (snd (fetch_or_dummy unit_rng (Inl (Exception ''no network'')) start_world)))
       = fst (fetch_or_dummy unit_rng (Inl (Exception ''no network'')) start_world)"
  using fallback_is_deterministic [of unit_rng "Exception ''no network''" start_world
          "KeyError ''Close''" "start_world\<lparr>rng_state := 7\<rparr>"]
  by blast

text \<open>
  C2. When the download raises, the first part of \<^verbatim>\<open>get_cleaned_data\<close> raises nothing and
  yields the synthetic table, which has a column for every requested identifier and a row
  for every business day of its range; the endpoint then answers with status 200, and its
  \<open>data\<close> are the records of the synthetic table without the column VFSVX, all 194 rows.
\<close>

theorem fetch_failure_gives_synthetic_200:
  "fst (fetch_or_dummy R (Inl e) w) = Inr (dummy_table R)
   \<and> columns (dummy_table R) = investment_options @ market_indexes
   \<and> map fst (rows (dummy_table R)) = date_range_B (ymd2ord 2025 1 1) (ymd2ord 2025 9 29)
   \<and> (\<exists>c. drop_columns [''VFSVX''] (dummy_table R) = Inr c
          \<and> fst (get_cleaned_data R (Inl e) w) = Inr c
          \<and> fst (api_get_401k_data R (Inl e) w) =
              Inr \<lparr>status_code = 200,
                   content = PDict [(''status'', PStr ''success''),
                                    (''message'', PStr ''401k portfolio data fetched and cleaned.''),
                                    (''data'', PList (to_dict_records c)),
                                    (''row_count'', PInt 194)]\<rparr>)"
proof -
  from dummy_table_cleaned [of R e w] obtain c where
    dr: "drop_columns [''VFSVX''] (dummy_table R) = Inr c" and
    g: "fst (get_cleaned_data R (Inl e) w) = Inr c" and
    n: "length (rows c) = 194"
    by blast
  from api_of_cleaned [OF g] n have
    "fst (api_get_401k_data R (Inl e) w) =
              Inr \<lparr>status_code = 200,
                   content = PDict [(''status'', PStr ''success''),
                                    (''message'', PStr ''401k portfolio data fetched and cleaned.''),
                                    (''data'', PList (to_dict_records c)),
                                    (''row_count'', PInt 194)]\<rparr>"
    by simp
  with dr g show ?thesis
    using fetch_or_dummy_Inl [of R e w] dummy_table_columns [of R] dummy_table_index [of R]
    by blast
qed

text \<open>The column of the ticker at position \<open>k\<close> in the synthetic table.\<close>

lemma map_nth_upt: "map (\<lambda>i. f (xs ! i)) [0 ..< length xs] = map f xs"
  using map_nth [of xs] by (metis (no_types, lifting) map_map comp_apply map_eq_conv)

lemma dummy_column:
  assumes "k < length (investment_options @ market_indexes)"
  shows "column_values ((investment_options @ market_indexes) ! k) (dummy_table R) =
           map (\<lambda>v. Some (Some v))
             (geometric_walk 100
                (map (\<lambda>z. 2 / 10000 + 1 / 100 * z)
                     (fst (standard_normal R dummy_days (state_before R k)))))"
proof -
  let ?ts = "investment_options @ market_indexes"
  let ?items = "fst (dummy_series R dummy_days ?ts (seed R 42))"
  let ?walk = "geometric_walk 100 (map (\<lambda>z. 2 / 10000 + 1 / 100 * z)
                     (fst (standard_normal R dummy_days (state_before R k))))"
  have item: "?items ! k = (?ts ! k, ?walk)"
    using dummy_series_nth [OF assms, of R dummy_days "seed R 42"]
    by (simp only: state_before_def)
  have keys: "map fst ?items = ?ts"
    by (rule dummy_series_keys)
  have len: "length ?items = length ?ts"
    using keys by (metis length_map)
  have mem: "(?ts ! k, ?walk) \<in> set ?items"
    using item assms len by (metis nth_mem)
  have dist: "distinct (map fst ?items)"
    using keys tickers_distinct by simp
  have look: "map_of (zip (map fst ?items) (map f ?items)) (?ts ! k) = Some (f (?ts ! k, ?walk))" for f :: "string \<times> real list \<Rightarrow> cell"
    using map_of_keyed [OF dist mem, of f] by simp
  have wl: "length ?walk = dummy_days"
    by (simp add: length_geometric_walk length_standard_normal)
  have tbl: "dummy_table R =
      \<lparr>columns = map fst ?items,
       rows = map (\<lambda>i. (date_range_B (ymd2ord 2025 1 1) (ymd2ord 2025 9 29) ! i,
                        map (\<lambda>kv. Some (snd kv ! i)) ?items)) [0 ..< dummy_days]\<rparr>"
    unfolding dummy_table_def dummy_days_def Let_def ..
  have "column_values (?ts ! k) (dummy_table R) =
          map (\<lambda>i. Some (Some (?walk ! i))) [0 ..< dummy_days]"
    by (simp add: tbl column_values_def comp_def look)
  also have "\<dots> = map (\<lambda>v. Some (Some v)) ?walk"
    using map_nth_upt [of "\<lambda>v. Some (Some v)" ?walk] by (simp only: wl)
  finally show ?thesis .
qed

lemma standard_normal_hd:
  "0 < n \<Longrightarrow> hd (fst (standard_normal R n g)) = fst (gauss R g)"
  by (cases n) (simp_all add: split_beta Let_def)

lemma dummy_column_hd:
  assumes "k < length (investment_options @ market_indexes)"
  shows "hd (column_values ((investment_options @ market_indexes) ! k) (dummy_table R)) =
           Some (Some (100 * exp (2 / 10000 + 1 / 100 * fst (gauss R (state_before R k)))))"
proof -
  obtain z zs where zs: "fst (standard_normal R dummy_days (state_before R k)) = z # zs"
    using length_standard_normal [of R dummy_days "state_before R k"] dummy_days_value
    by (cases "fst (standard_normal R dummy_days (state_before R k))") simp_all
  have "hd (fst (standard_normal R dummy_days (state_before R k))) = fst (gauss R (state_before R k))"
    by (rule standard_normal_hd) (simp add: dummy_days_value)
  with zs have "z = fst (gauss R (state_before R k))" by simp
  with zs show ?thesis
    by (simp add: dummy_column [OF assms])
qed

text \<open>
  C3, as amended. For every requested identifier, the column of the synthetic table is
  the geometric random walk from the base value 100 over the steps \<open>0.0002 + 0.01 * z\<close>,
  \<open>z\<close> the standard normal draws of that identifier: each value is the previous one (100
  for the first) times the exponential of the step. The first element is therefore
  \<open>100 * exp (0.0002 + 0.01 * z)\<close> for the first draw \<open>z\<close>, not 100.
\<close>

theorem dummy_series_is_geometric_walk:
  assumes "k < length (investment_options @ market_indexes)"
  shows "fst (fetch_or_dummy R (Inl e) w) = Inr (dummy_table R)
   \<and> column_values ((investment_options @ market_indexes) ! k) (dummy_table R) =
           map (\<lambda>v. Some (Some v))
             (geometric_walk 100
                (map (\<lambda>z. 2 / 10000 + 1 / 100 * z)
                     (fst (standard_normal R dummy_days (state_before R k)))))
   \<and> hd (column_values ((investment_options @ market_indexes) ! k) (dummy_table R)) =
           Some (Some (100 * exp (2 / 10000 + 1 / 100 * fst (gauss R (state_before R k)))))"
  using fetch_or_dummy_Inl [of R e w] dummy_column [OF assms, of R] dummy_column_hd [OF assms, of R]
  by blast

theorem dummy_series_is_geometric_walk_witness:
  "0 < length (investment_options @ market_indexes)
   \<and> (investment_options @ market_indexes) ! 0 = ''DODGX''
   \<and> column_values ''DODGX'' (dummy_table unit_rng) =
           map (\<lambda>v. Some (Some v))
             (geometric_walk 100
                (map (\<lambda>z. 2 / 10000 + 1 / 100 * z)
                     (fst (standard_normal unit_rng dummy_days (state_before unit_rng 0)))))
   \<and> hd (column_values ''DODGX'' (dummy_table unit_rng)) = Some (Some (100 * exp (51 / 5000)))"
proof -
  have k: "0 < length (investment_options @ market_indexes)"
    by (simp add: investment_options_def)
  have t: "(investment_options @ market_indexes) ! 0 = ''DODGX''"
    by (simp add: investment_options_def)
  have z: "fst (gauss unit_rng (state_before unit_rng 0)) = 1"
    by (simp add: unit_rng_def state_before_def)
  from dummy_series_is_geometric_walk [OF k, of unit_rng "Exception ''no network''" start_world]
  have a: "column_values ((investment_options @ market_indexes) ! 0) (dummy_table unit_rng) =
           map (\<lambda>v. Some (Some v))
             (geometric_walk 100
                (map (\<lambda>z. 2 / 10000 + 1 / 100 * z)
                     (fst (standard_normal unit_rng dummy_days (state_before unit_rng 0)))))"
    and b: "hd (column_values ((investment_options @ market_indexes) ! 0) (dummy_table unit_rng)) =
           Some (Some (100 * exp (2 / 10000 + 1 / 100 * fst (gauss unit_rng (state_before unit_rng 0)))))"
    by blast+
  show ?thesis
  proof (intro conjI)
    show "0 < length (investment_options @ market_indexes)" by (rule k)
    show "(investment_options @ market_indexes) ! 0 = ''DODGX''" by (rule t)
    show "column_values ''DODGX'' (dummy_table unit_rng) =
           map (\<lambda>v. Some (Some v))
             (geometric_walk 100
                (map (\<lambda>z. 2 / 10000 + 1 / 100 * z)
                     (fst (standard_normal unit_rng dummy_days (state_before unit_rng 0)))))"
      using a by (simp only: t)
    show "hd (column_values ''DODGX'' (dummy_table unit_rng)) = Some (Some (100 * exp (51 / 5000)))"
      using b by (simp only: t z) simp
  qed
qed

text \<open>
  C3 as first stated (every series starts at 100, that is, its first element is 100)
  fails: with the generator whose draws are all 1, the first element of the column DODGX
  is \<open>100 * exp (0.0002 + 0.01)\<close>.
\<close>

theorem first_value_is_not_100_counterexample:
  "fst (fetch_or_dummy unit_rng (Inl (Exception ''no network'')) start_world) = Inr unit_dummy
   \<and> hd (column_values ''DODGX'' unit_dummy) = Some (Some (100 * exp (51 / 5000)))
   \<and> hd (column_values ''DODGX'' unit_dummy) \<noteq> Some (Some 100)"
proof -
  have u: "unit_dummy = dummy_table unit_rng"
    by (simp add: unit_dummy_def fetch_or_dummy_Inl)
  have k: "0 < length (investment_options @ market_indexes)"
    by (simp add: investment_options_def)
  have t: "(investment_options @ market_indexes) ! 0 = ''DODGX''"
    by (simp add: investment_options_def)
  have z: "fst (gauss unit_rng (state_before unit_rng 0)) = 1"
    by (simp add: unit_rng_def state_before_def)
  have h: "hd (column_values ''DODGX'' unit_dummy) = Some (Some (100 * exp (51 / 5000)))"
    using dummy_column_hd [OF k, of unit_rng] by (simp only: t z u) simp
  have "exp (51 / 5000 :: real) \<noteq> 1"
    by simp
  then have "100 * exp (51 / 5000 :: real) \<noteq> 100"
    by simp
  with h show ?thesis
    by (simp add: u fetch_or_dummy_Inl)
qed

end
